theory Spec2Isabelle
  imports Main "HOL-Library.Word"
begin

section \<open>The operating system as seen by the shell (hw2/shell.c)\<close>

text \<open>
  The shell talks to the kernel and to libc. Their answers are not computed by the shell,
  so they are fields of the state: what \<open>getenv\<close> finds, for which paths \<open>stat\<close> succeeds,
  where \<open>chdir\<close> leads, whether \<open>getcwd\<close> and \<open>execv\<close> fail, and what each \<open>fork\<close> returns
  in the process that is being followed. What the shell writes (standard output, standard
  error) and the calls it makes (the trace \<open>events\<close>) are fields as well.
  C strings are \<open>string\<close>; a \<open>char *\<close> that may be \<open>NULL\<close> is a \<open>string option\<close>.
  Allocation by \<open>malloc\<close> is taken to succeed in the shell, which never tests it, and
  \<open>free\<close> leaves no trace in the state.
\<close>

datatype errno = ENOENT | EACCES | ENOTDIR | EFAULT | ENOMEM | ENOEXEC

datatype event =
    Call_stat string
  | Call_getenv string
  | Call_chdir "string option"
  | Call_getcwd
  | Call_fork int
  | Call_execv string "string option list"
  | Call_waitpid int
  | Call_tokens_destroy

record os =
  environ :: "string \<rightharpoonup> string"
  stat_ok :: "string \<Rightarrow> string \<Rightarrow> bool"
  dir_lookup :: "string \<Rightarrow> string \<Rightarrow> errno + string"
  cwd :: string
  getcwd_errno :: "string \<Rightarrow> errno option"
  execv_errno :: "string \<Rightarrow> errno option"
  fork_rets :: "int list"
  shell_is_interactive :: bool
  stdout :: string
  stderr :: string
  events :: "event list"

text \<open>
  A \<open>NULL\<close> pointer read as a string by libc (\<open>printf("%s")\<close>, \<open>strcmp\<close>, \<open>strlen\<close>) is
  undefined behaviour; the model stops there with a fault.
\<close>

datatype fault = Null_string

text \<open>
  How a piece of the shell ends: it returns a value, the process exits with a status
  (\<open>exit\<close>, or \<open>return\<close> from \<open>main\<close>), the process image is replaced by \<open>execv\<close>,
  or it faults.
\<close>

datatype 'a result =
    Returns 'a os
  | Exits int os
  | Replaced string "string option list" os
  | Faults fault os

fun state_of :: "'a result \<Rightarrow> os" where
  "state_of (Returns _ s) = s"
| "state_of (Exits _ s) = s"
| "state_of (Replaced _ _ s) = s"
| "state_of (Faults _ s) = s"

definition log_event :: "event \<Rightarrow> os \<Rightarrow> os" where
  "log_event e s = s\<lparr>events := events s @ [e]\<rparr>"

definition print_out :: "string \<Rightarrow> os \<Rightarrow> os" where
  "print_out str s = s\<lparr>stdout := stdout s @ str\<rparr>"

definition print_err :: "string \<Rightarrow> os \<Rightarrow> os" where
  "print_err str s = s\<lparr>stderr := stderr s @ str\<rparr>"

fun strerror :: "errno \<Rightarrow> string" where
  "strerror ENOENT = ''No such file or directory''"
| "strerror EACCES = ''Permission denied''"
| "strerror ENOTDIR = ''Not a directory''"
| "strerror EFAULT = ''Bad address''"
| "strerror ENOMEM = ''Cannot allocate memory''"
| "strerror ENOEXEC = ''Exec format error''"

text \<open>\<open>perror(ctx)\<close> writes \<open>ctx: <description of errno>\<close> and a newline to standard error.\<close>

definition perror :: "string \<Rightarrow> errno \<Rightarrow> os \<Rightarrow> os" where
  "perror ctx e s = print_err (ctx @ '': '' @ strerror e @ ''\<newline>'') s"

definition getenv :: "string \<Rightarrow> os \<Rightarrow> string option \<times> os" where
  "getenv name s = (environ s name, log_event (Call_getenv name) s)"

text \<open>\<open>stat(path, &buf) != -1\<close>: the answer is the file system's, relative to the working directory.\<close>

definition stat :: "string \<Rightarrow> os \<Rightarrow> bool \<times> os" where
  "stat path s = (stat_ok s (cwd s) path, log_event (Call_stat path) s)"

text \<open>
  \<open>chdir\<close> is a system call: \<open>None\<close> is the return value 0, \<open>Some e\<close> is -1 with \<open>errno = e\<close>.
  The kernel copies the path from the caller's memory and answers \<open>EFAULT\<close> for a pointer
  outside the address space, which \<open>NULL\<close> is.
\<close>

definition chdir :: "string option \<Rightarrow> os \<Rightarrow> errno option \<times> os" where
  "chdir path s =
     (let s1 = log_event (Call_chdir path) s in
      case path of
        None \<Rightarrow> (Some EFAULT, s1)
      | Some p \<Rightarrow>
          (case dir_lookup s (cwd s) p of
             Inl e \<Rightarrow> (Some e, s1)
           | Inr d \<Rightarrow> (None, s1\<lparr>cwd := d\<rparr>)))"

text \<open>\<open>getcwd(NULL, 0)\<close>: a fresh string holding the working directory, or \<open>NULL\<close>.\<close>

definition getcwd :: "os \<Rightarrow> string option \<times> os" where
  "getcwd s =
     (case getcwd_errno s (cwd s) of
        None \<Rightarrow> (Some (cwd s), log_event Call_getcwd s)
      | Some e \<Rightarrow> (None, log_event Call_getcwd s))"

text \<open>
  \<open>fork\<close> returns the child's pid in the parent, 0 in the child and -1 when no process
  could be made. The model follows one process; the value it sees comes from \<open>fork_rets\<close>.
\<close>

definition fork :: "os \<Rightarrow> int \<times> os" where
  "fork s =
     (case fork_rets s of
        [] \<Rightarrow> (- 1, log_event (Call_fork (- 1)) s)
      | r # rs \<Rightarrow> (r, log_event (Call_fork r) (s\<lparr>fork_rets := rs\<rparr>)))"

definition waitpid :: "int \<Rightarrow> os \<Rightarrow> os" where
  "waitpid pid s = log_event (Call_waitpid pid) s"

text \<open>\<open>execv\<close> returns only when it fails: \<open>Some e\<close> is that return, \<open>None\<close> the new image.\<close>

definition execv :: "string \<Rightarrow> string option list \<Rightarrow> os \<Rightarrow> errno option \<times> os" where
  "execv path args s = (execv_errno s path, log_event (Call_execv path args) s)"

subsection \<open>The tokenizer's interface (tokenizer.h)\<close>

type_synonym tokens = "string list"

text \<open>
  Modelled from the spec: the tokenizer (tokenizer.c) is not among the sources. The spec
  gives it as "given a line, produce token count and token-at-index accessors", a Token
  Sequence being "an ordered, index-addressable sequence of owned strings", and an empty
  sequence having a "null/absent" first token.
\<close>

definition tokens_get_length :: "tokens \<Rightarrow> nat" where
  "tokens_get_length ts = length ts"

definition tokens_get_token :: "tokens \<Rightarrow> nat \<Rightarrow> string option" where
  "tokens_get_token ts n = (if n < length ts then Some (ts ! n) else None)"

definition tokens_destroy :: "os \<Rightarrow> os" where
  "tokens_destroy s = log_event Call_tokens_destroy s"

subsection \<open>String comparison\<close>

text \<open>\<open>strcmp\<close> on two strings: negative, zero or positive, bytes compared as unsigned.\<close>

fun strcmp :: "string \<Rightarrow> string \<Rightarrow> int" where
  "strcmp [] [] = 0"
| "strcmp [] (y # ys) = - 1"
| "strcmp (x # xs) [] = 1"
| "strcmp (x # xs) (y # ys) =
     (if x = y then strcmp xs ys
      else if (of_char x :: nat) < of_char y then - 1 else 1)"

text \<open>\<open>strcmp\<close> on two pointers reads both strings.\<close>

definition strcmp_ptr :: "string option \<Rightarrow> string option \<Rightarrow> fault + int" where
  "strcmp_ptr a b =
     (case a of
        None \<Rightarrow> Inl Null_string
      | Some x \<Rightarrow> (case b of None \<Rightarrow> Inl Null_string | Some y \<Rightarrow> Inr (strcmp x y)))"

subsection \<open>The table of builtins\<close>

text \<open>
  The table holds function pointers; \<open>cmd_fun\<close> names the four functions they point to
  and \<open>call\<close> (below) is the call through the pointer.
\<close>

datatype cmd_fun = Cmd_help | Cmd_exit | Cmd_pwd | Cmd_cd

record fun_desc =
  fn :: cmd_fun
  cmd :: string
  doc :: string

definition cmd_table :: "fun_desc list" where
  "cmd_table =
     [\<lparr>fn = Cmd_help, cmd = ''?'', doc = ''show this help menu''\<rparr>,
      \<lparr>fn = Cmd_exit, cmd = ''exit'', doc = ''exit the command shell''\<rparr>,
      \<lparr>fn = Cmd_pwd, cmd = ''pwd'', doc = ''print working directory''\<rparr>,
      \<lparr>fn = Cmd_cd, cmd = ''cd'', doc = ''change working directory''\<rparr>]"

text \<open>The loop of \<open>cmd_help\<close>: one \<open>printf("%s - %s\n", ...)\<close> for each entry, in order.\<close>

fun help_loop :: "fun_desc list \<Rightarrow> os \<Rightarrow> os" where
  "help_loop [] s = s"
| "help_loop (e # es) s = help_loop es (print_out (cmd e @ '' - '' @ doc e @ ''\<newline>'') s)"

definition cmd_help :: "tokens \<Rightarrow> os \<Rightarrow> int result" where
  "cmd_help tokens s = Returns 1 (help_loop cmd_table s)"

definition cmd_exit :: "tokens \<Rightarrow> os \<Rightarrow> int result" where
  "cmd_exit tokens s = Exits 0 (tokens_destroy s)"

text \<open>
  \<open>cmd_pwd\<close> hands the result of \<open>getcwd\<close> to \<open>printf("%s\n", cwd)\<close> without testing it.
\<close>

definition cmd_pwd :: "tokens \<Rightarrow> os \<Rightarrow> int result" where
  "cmd_pwd tokens s =
     (case getcwd s of
        (None, s1) \<Rightarrow> Faults Null_string s1
      | (Some d, s1) \<Rightarrow> Returns 0 (print_out (d @ ''\<newline>'') s1))"

definition cmd_cd :: "tokens \<Rightarrow> os \<Rightarrow> int result" where
  "cmd_cd tokens s =
     (let argc = tokens_get_length tokens in
      if argc > 2 then Returns 0 (print_err ''cd: too many arguments\<newline>'' s)
      else if argc = 2 then
        (case chdir (tokens_get_token tokens 1) s of
           (None, s1) \<Rightarrow> Returns 0 s1
         | (Some e, s1) \<Rightarrow> Returns 0 (perror ''cd'' e s1))
      else
        (case getenv ''HOME'' s of
           (home, s1) \<Rightarrow>
             (case chdir home s1 of
                (None, s2) \<Rightarrow> Returns 0 s2
              | (Some e, s2) \<Rightarrow> Returns 0 (perror ''cd'' e s2))))"

fun call :: "cmd_fun \<Rightarrow> tokens \<Rightarrow> os \<Rightarrow> int result" where
  "call Cmd_help = cmd_help"
| "call Cmd_exit = cmd_exit"
| "call Cmd_pwd = cmd_pwd"
| "call Cmd_cd = cmd_cd"

text \<open>
  The loop of \<open>lookup\<close> from index \<open>i\<close> over the rest of the table. The test is
  \<open>cmd && strcmp(...) == 0\<close>: with \<open>cmd\<close> null, \<open>strcmp\<close> is not called.
\<close>

fun lookup_loop :: "fun_desc list \<Rightarrow> nat \<Rightarrow> string option \<Rightarrow> fault + int" where
  "lookup_loop [] i c = Inr (- 1)"
| "lookup_loop (e # es) i c =
     (if c = None then lookup_loop es (Suc i) c
      else
        (case strcmp_ptr (Some (cmd e)) c of
           Inl f \<Rightarrow> Inl f
         | Inr r \<Rightarrow> if r = 0 then Inr (int i) else lookup_loop es (Suc i) c))"

definition lookup :: "string option \<Rightarrow> fault + int" where
  "lookup c = lookup_loop cmd_table 0 c"

subsection \<open>The Path Resolver\<close>

text \<open>
  \<open>strtok\<close> on a string and a set of delimiters: leading delimiters are skipped; if
  nothing is left there is no token; otherwise the token runs up to the next delimiter,
  which is overwritten by the terminator, and the scan resumes behind it on the next call.
  The saved position that libc keeps between calls is the second component here.
\<close>

definition strtok :: "string \<Rightarrow> string \<Rightarrow> (string \<times> string) option" where
  "strtok str delim =
     (let start = dropWhile (\<lambda>c. c \<in> set delim) str in
      if start = [] then None
      else Some (takeWhile (\<lambda>c. c \<notin> set delim) start,
                 drop 1 (dropWhile (\<lambda>c. c \<notin> set delim) start)))"

lemma strtok_shorter:
  assumes "strtok str delim = Some (token, rest)"
  shows "length rest < length str"
proof -
  define start where "start = dropWhile (\<lambda>c. c \<in> set delim) str"
  from assms have ne: "start \<noteq> []"
    and rest: "rest = drop 1 (dropWhile (\<lambda>c. c \<notin> set delim) start)"
    by (auto simp: strtok_def start_def Let_def split: if_splits)
  have "length rest \<le> length start - 1"
    unfolding rest by (simp add: length_dropWhile_le diff_le_mono)
  moreover from ne have "0 < length start" by simp
  moreover have "length start \<le> length str"
    unfolding start_def by (rule length_dropWhile_le)
  ultimately show ?thesis by linarith
qed

text \<open>
  The loop of \<open>search_path\<close>: \<open>rest\<close> is what \<open>strtok\<close> has still to scan of the copy of
  \<open>PATH\<close>. Each token gives the candidate \<open>token/command\<close>, tested by \<open>stat\<close> alone.
\<close>

function search_loop :: "string \<Rightarrow> string \<Rightarrow> os \<Rightarrow> string option \<times> os" where
  "search_loop command rest s =
     (case strtok rest '':'' of
        None \<Rightarrow> (None, s)
      | Some (token, rest') \<Rightarrow>
          (let pathname = token @ ''/'' @ command in
           case stat pathname s of
             (found, s1) \<Rightarrow>
               if found then (Some pathname, s1) else search_loop command rest' s1))"
  by pat_completeness auto
termination
  by (relation "measure (\<lambda>(command, rest, s). length rest)") (auto dest: strtok_shorter)

declare search_loop.simps [simp del]

definition search_path :: "string \<Rightarrow> os \<Rightarrow> string option \<times> os" where
  "search_path command s =
     (case getenv ''PATH'' s of
        (None, s1) \<Rightarrow> (None, s1)
      | (Some path_orig, s1) \<Rightarrow> search_loop command path_orig s1)"

text \<open>
  The specification's words for the same search, to compare with the loop above: the
  value of \<open>PATH\<close> is split at every \<open>:\<close> into fields (\<open>split_fields\<close>), the directories are the
  fields that are not empty, in order (\<open>path_dirs\<close>), and a first-match search examines
  the candidates from the left up to and including the first that exists (\<open>tried\<close>).
\<close>

fun split_fields :: "char \<Rightarrow> string \<Rightarrow> string list" where
  "split_fields d [] = [[]]"
| "split_fields d (c # cs) =
     (if c = d then [] # split_fields d cs
      else (case split_fields d cs of [] \<Rightarrow> [[c]] | f # fs \<Rightarrow> (c # f) # fs))"

definition path_dirs :: "string \<Rightarrow> string list" where
  "path_dirs p = filter (\<lambda>d. d \<noteq> []) (split_fields CHR '':'' p)"

fun join_fields :: "char \<Rightarrow> string list \<Rightarrow> string" where
  "join_fields d [] = []"
| "join_fields d [f] = f"
| "join_fields d (f # g # fs) = f @ d # join_fields d (g # fs)"

fun tried :: "('a \<Rightarrow> bool) \<Rightarrow> 'a list \<Rightarrow> 'a list" where
  "tried ok [] = []"
| "tried ok (x # xs) = (if ok x then [x] else x # tried ok xs)"

subsection \<open>The shell loop\<close>

text \<open>
  The child-creation code that \<open>main\<close> has twice, once for the first token as a path and
  once for the resolved path: \<open>fork\<close>; a non-zero return waits for that pid; the return 0
  builds \<open>args\<close> (every token, then \<open>NULL\<close>), calls \<open>execv\<close> and, if that returns, reports
  the error and leaves \<open>main\<close> with 1.
\<close>

definition fork_exec_wait :: "string \<Rightarrow> tokens \<Rightarrow> os \<Rightarrow> unit result" where
  "fork_exec_wait path tokens s =
     (case fork s of
        (pid, s1) \<Rightarrow>
          if pid \<noteq> 0 then Returns () (waitpid pid s1)
          else
            (let args = map (tokens_get_token tokens) [0..<tokens_get_length tokens] @ [None] in
             case execv path args s1 of
               (None, s2) \<Rightarrow> Replaced path args s2
             | (Some e, s2) \<Rightarrow> Exits 1 (perror path e s2)))"

text \<open>A call whose value the caller does not use.\<close>

fun discard :: "'a result \<Rightarrow> unit result" where
  "discard (Returns r s) = Returns () s"
| "discard (Exits c s) = Exits c s"
| "discard (Replaced p a s) = Replaced p a s"
| "discard (Faults f s) = Faults f s"

text \<open>
  What \<open>main\<close> does with the token sequence of one line, from \<open>lookup\<close> to the end of the
  \<open>if\<close> chain. The value a builtin returns is dropped. The guards
  \<open>tokens_get_length(tokens) > 0 && ...\<close> are evaluated left to right, so \<open>stat\<close> and
  \<open>search_path\<close> run only on a non-empty sequence. A null first token of a non-empty
  sequence, which the accessor never gives, would reach \<open>strlen\<close> in \<open>search_path\<close>.
\<close>

definition run_command :: "tokens \<Rightarrow> os \<Rightarrow> unit result" where
  "run_command tokens s =
     (case lookup (tokens_get_token tokens 0) of
        Inl f \<Rightarrow> Faults f s
      | Inr fundex \<Rightarrow>
          if fundex \<ge> 0 then
            discard (call (fn (cmd_table ! nat fundex)) tokens s)
          else if tokens_get_length tokens > 0 then
            (case tokens_get_token tokens 0 of
               None \<Rightarrow> Faults Null_string s
             | Some tok0 \<Rightarrow>
                 (case stat tok0 s of
                    (found, s1) \<Rightarrow>
                      if found then fork_exec_wait tok0 tokens s1
                      else
                        (case search_path tok0 s1 of
                           (Some pathname, s2) \<Rightarrow> fork_exec_wait pathname tokens s2
                         | (None, s2) \<Rightarrow>
                             Returns () (print_err (tok0 @ '': command not found\<newline>'') s2))))
          else Returns () s)"

text \<open>\<open>printf("%d")\<close> of an \<open>int\<close>.\<close>

fun dec_nat :: "nat \<Rightarrow> string" where
  "dec_nat n =
     (if n < 10 then [''0123456789'' ! n]
      else dec_nat (n div 10) @ [''0123456789'' ! (n mod 10)])"

declare dec_nat.simps [simp del]

definition show_int :: "32 word \<Rightarrow> string" where
  "show_int w = (if sint w < 0 then CHR ''-'' # dec_nat (nat (- sint w)) else dec_nat (nat (sint w)))"

text \<open>
  One turn of the loop after the line is tokenized: the command, then the prompt with the
  incremented line number when interactive, then the release of the tokens.
\<close>

definition shell_line :: "tokens \<Rightarrow> 32 word \<Rightarrow> os \<Rightarrow> (32 word) result" where
  "shell_line tokens line_num s =
     (case run_command tokens s of
        Returns u s1 \<Rightarrow>
          if shell_is_interactive s1
          then Returns (line_num + 1) (tokens_destroy (print_out (show_int (line_num + 1) @ '': '') s1))
          else Returns line_num (tokens_destroy s1)
      | Exits c s1 \<Rightarrow> Exits c s1
      | Replaced p a s1 \<Rightarrow> Replaced p a s1
      | Faults f s1 \<Rightarrow> Faults f s1)"

text \<open>
  \<open>fgets(line, n, stdin)\<close> on the unread input: at most \<open>n - 1\<close> characters, ending
  behind the first newline; nothing at the end of the input.
\<close>

fun fgets_take :: "nat \<Rightarrow> string \<Rightarrow> string \<times> string" where
  "fgets_take n [] = ([], [])"
| "fgets_take n (c # cs) =
     (if n = 0 then ([], c # cs)
      else if c = CHR ''\<newline>'' then ([c], cs)
      else (case fgets_take (n - 1) cs of (l, r) \<Rightarrow> (c # l, r)))"

definition fgets :: "nat \<Rightarrow> string \<Rightarrow> (string \<times> string) option" where
  "fgets n inp = (if inp = [] then None else Some (fgets_take (n - 1) inp))"

lemma fgets_take_le: "length (snd (fgets_take n inp)) \<le> length inp"
  by (induction n inp rule: fgets_take.induct) (auto split: prod.splits)

lemma fgets_take_shorter:
  assumes "0 < n" and "inp \<noteq> []"
  shows "length (snd (fgets_take n inp)) < length inp"
proof (cases inp)
  case Nil
  with assms show ?thesis by simp
next
  case (Cons c cs)
  have "length (snd (fgets_take (n - 1) cs)) \<le> length cs"
    by (rule fgets_take_le)
  with Cons assms show ?thesis
    by (auto split: prod.splits)
qed

text \<open>
  The tokenizer itself (\<open>tokenize\<close>) is not among the sources and is a parameter of the
  loop. The loop ends with \<open>return 0\<close> when the input does, and earlier when a turn
  does not return.
\<close>

function main_loop :: "(string \<Rightarrow> tokens) \<Rightarrow> string \<Rightarrow> 32 word \<Rightarrow> os \<Rightarrow> unit result" where
  "main_loop tokenize inp line_num s =
     (case fgets 4096 inp of
        None \<Rightarrow> Exits 0 s
      | Some (line, rest) \<Rightarrow>
          (case shell_line (tokenize line) line_num s of
             Returns n s1 \<Rightarrow> main_loop tokenize rest n s1
           | Exits c s1 \<Rightarrow> Exits c s1
           | Replaced p a s1 \<Rightarrow> Replaced p a s1
           | Faults f s1 \<Rightarrow> Faults f s1))"
  by pat_completeness auto
termination
proof (relation "measure (\<lambda>(tokenize, inp, line_num, s). length inp)")
  show "wf (measure (\<lambda>(tokenize, inp, line_num, s). length inp))" by simp
next
  fix tokenize :: "string \<Rightarrow> tokens" and inp :: string and line_num :: "32 word"
    and s :: os and x2 line rest x1 s1
  assume "fgets 4096 inp = Some x2" and "(line, rest) = x2"
  then have "inp \<noteq> []" and "rest = snd (fgets_take 4095 inp)"
    by (auto simp: fgets_def split: if_splits dest: sym)
  then have "length rest < length inp"
    using fgets_take_shorter [of 4095 inp] by simp
  then show "((tokenize, rest, x1, s1), tokenize, inp, line_num, s)
      \<in> measure (\<lambda>(tokenize, inp, line_num, s). length inp)"
    by simp
qed

declare main_loop.simps [simp del]

text \<open>
  \<open>main\<close> after \<open>init_shell\<close>, whose outcome is the flag \<open>shell_is_interactive\<close>: the first
  prompt, then the loop.
\<close>

definition main :: "(string \<Rightarrow> tokens) \<Rightarrow> string \<Rightarrow> os \<Rightarrow> unit result" where
  "main tokenize inp s =
     main_loop tokenize inp 0
       (if shell_is_interactive s then print_out (show_int 0 @ '': '') s else s)"

text \<open>
  The calls that belong to running an external command: the status query, the lookup of
  \<open>PATH\<close>, and the creation, replacement and reaping of a process.
\<close>

fun spawn_event :: "event \<Rightarrow> bool" where
  "spawn_event (Call_stat p) = True"
| "spawn_event (Call_getenv name) = (name = ''PATH'')"
| "spawn_event (Call_fork r) = True"
| "spawn_event (Call_execv p a) = True"
| "spawn_event (Call_waitpid p) = True"
| "spawn_event e = False"

section \<open>The word-count list (hw1/word_count_l.c)\<close>

text \<open>
  Modelled from the spec: word_count.h and the Pintos list it builds on are not among the
  sources. The spec gives the module as "a list-backed frequency table with linear lookup,
  insertion"; an entry holds the word and its count, which \<open>fprint_words\<close> prints with
  \<open>%8d\<close>, an \<open>int\<close>. The list is the sequence of its entries from \<open>list_begin\<close> to
  \<open>list_end\<close>, and a pointer to an entry is its position in that sequence.
\<close>

record word_count =
  word :: string
  count :: "32 word"

type_synonym word_count_list = "word_count list"

definition init_words :: word_count_list where
  "init_words = []"

definition len_words :: "word_count_list \<Rightarrow> nat" where
  "len_words wclist = length wclist"

fun find_word :: "word_count_list \<Rightarrow> string \<Rightarrow> nat option" where
  "find_word [] w = None"
| "find_word (e # es) w =
     (if strcmp (word e) w = 0 then Some 0 else map_option Suc (find_word es w))"

text \<open>
  \<open>add_word\<close> changes the list and may write to standard error. Whether its \<open>malloc\<close>
  succeeds is the allocator's answer, the argument \<open>malloc_ok\<close>. The increment is that of
  the machine \<open>int\<close>.
\<close>

record wc_state =
  wclist :: word_count_list
  wc_stderr :: string

definition add_word :: "bool \<Rightarrow> wc_state \<Rightarrow> string \<Rightarrow> nat option \<times> wc_state" where
  "add_word malloc_ok st w =
     (case find_word (wclist st) w of
        Some i \<Rightarrow>
          (Some i,
           st\<lparr>wclist := (wclist st)[i := (wclist st ! i)\<lparr>count := count (wclist st ! i) + 1\<rparr>]\<rparr>)
      | None \<Rightarrow>
          if malloc_ok
          then (Some (length (wclist st)),
                st\<lparr>wclist := wclist st @ [\<lparr>word = w, count = 1\<rparr>]\<rparr>)
          else (None,
                st\<lparr>wc_stderr := wc_stderr st @ ''malloc: '' @ strerror ENOMEM @ ''\<newline>''\<rparr>))"

text \<open>
  A sequence of \<open>add_word\<close> calls, each with its word and the allocator's answer, as a
  caller of the module makes them.
\<close>

fun add_words :: "(bool \<times> string) list \<Rightarrow> wc_state \<Rightarrow> wc_state" where
  "add_words [] st = st"
| "add_words ((malloc_ok, w) # calls) st = add_words calls (snd (add_word malloc_ok st w))"

section \<open>Concrete states\<close>

text \<open>
  A machine to run the definitions on: two directories on \<open>PATH\<close> around an empty field,
  \<open>env\<close> present in both, \<open>ls\<close> and \<open>echo\<close> only in the second; \<open>/tmp\<close> and \<open>/root\<close> can
  be entered; the next \<open>fork\<close> returns pid 4711 to the shell.
\<close>

definition os_demo :: os where
  "os_demo =
     \<lparr>environ = [''PATH'' \<mapsto> ''/usr/bin::/bin'', ''HOME'' \<mapsto> ''/root''],
      stat_ok = (\<lambda>dir p. p = ''/usr/bin/env'' \<or> p = ''/bin/env'' \<or> p = ''/bin/ls'' \<or> p = ''/bin/echo''),
      dir_lookup = (\<lambda>dir p. if p = ''/tmp'' \<or> p = ''/root'' then Inr p else Inl ENOENT),
      cwd = ''/'',
      getcwd_errno = (\<lambda>dir. None),
      execv_errno = (\<lambda>p. None),
      fork_rets = [4711],
      shell_is_interactive = True,
      stdout = [],
      stderr = [],
      events = []\<rparr>"

text \<open>The same machine seen from the child of a \<open>fork\<close>.\<close>

definition os_child :: os where
  "os_child = os_demo\<lparr>fork_rets := [0]\<rparr>"

text \<open>The same machine when no process can be made: \<open>fork\<close> returns -1.\<close>

definition os_fork_fails :: os where
  "os_fork_fails = os_demo\<lparr>fork_rets := [- 1]\<rparr>"

text \<open>The same machine with an empty environment.\<close>

definition os_nopath :: os where
  "os_nopath = os_demo\<lparr>environ := Map.empty\<rparr>"

text \<open>The same machine with \<open>HOME\<close> unset.\<close>

definition os_homeless :: os where
  "os_homeless = os_demo\<lparr>environ := [''PATH'' \<mapsto> ''/usr/bin::/bin'']\<rparr>"

text \<open>The same machine in a working directory that has been removed: \<open>getcwd\<close> fails.\<close>

definition os_cwd_gone :: os where
  "os_cwd_gone = os_demo\<lparr>cwd := ''/gone'', getcwd_errno := (\<lambda>dir. Some ENOENT)\<rparr>"

section \<open>Facts about the builtin table\<close>

lemma strcmp_zero_iff: "strcmp a b = 0 \<longleftrightarrow> a = b"
  by (induction a b rule: strcmp.induct) auto

lemma lookup_loop_null: "lookup_loop es i None = Inr (- 1)"
  by (induction es arbitrary: i) auto

lemma lookup_loop_total: "\<exists>r. lookup_loop es i c = Inr r"
proof (induction es arbitrary: i)
  case Nil
  show ?case by simp
next
  case (Cons e es)
  show ?case
  proof (cases c)
    case None
    then show ?thesis by (simp add: lookup_loop_null)
  next
    case (Some x)
    with Cons [of "Suc i"] show ?thesis by (simp add: strcmp_ptr_def)
  qed
qed

lemma lookup_names:
  "lookup (Some ''?'') = Inr 0" "lookup (Some ''exit'') = Inr 1"
  "lookup (Some ''pwd'') = Inr 2" "lookup (Some ''cd'') = Inr 3"
  by (simp_all add: lookup_def cmd_table_def strcmp_ptr_def)

lemma lookup_other:
  assumes "name \<notin> set (map cmd cmd_table)"
  shows "lookup (Some name) = Inr (- 1)"
  using assms by (auto simp: lookup_def cmd_table_def strcmp_ptr_def strcmp_zero_iff)

section \<open>The builtins\<close>

text \<open>
  C6: \<open>lookup\<close> on a null command name, which is what \<open>tokens_get_token(tokens, 0)\<close> is for
  an empty token sequence, returns -1 ("none"). The null test stands before every
  \<open>strcmp\<close>, so no comparison reads the null pointer: \<open>lookup\<close> returns an index or -1 for
  every argument and never faults. The turn of the loop on an empty token sequence does
  nothing and returns.
\<close>

theorem lookup_null_is_none:
  "lookup None = Inr (- 1)
   \<and> lookup (tokens_get_token [] 0) = Inr (- 1)
   \<and> (\<forall>c. \<exists>r. lookup c = Inr r)
   \<and> run_command [] s = Returns () s"
  by (simp add: lookup_def lookup_loop_null lookup_loop_total tokens_get_token_def
      tokens_get_length_def run_command_def)

text \<open>
  C5: for every token sequence \<open>cmd_exit\<close> releases the tokens (the one call it logs is
  \<open>tokens_destroy\<close>) and then ends the process with status 0; it has no returning outcome.
  Reached through the table from a line whose first token is \<open>exit\<close>, the turn of the loop
  ends the same way: the tokens are destroyed once, before the exit, and no prompt follows.
\<close>

theorem cmd_exit_destroys_then_exits:
  "cmd_exit tokens s = Exits 0 (s\<lparr>events := events s @ [Call_tokens_destroy]\<rparr>)
   \<and> (\<forall>r s'. cmd_exit tokens s \<noteq> Returns r s')
   \<and> run_command (''exit'' # args) s = Exits 0 (s\<lparr>events := events s @ [Call_tokens_destroy]\<rparr>)
   \<and> shell_line (''exit'' # args) n s = Exits 0 (s\<lparr>events := events s @ [Call_tokens_destroy]\<rparr>)"
  by (simp add: cmd_exit_def tokens_destroy_def log_event_def run_command_def shell_line_def
      tokens_get_token_def lookup_names cmd_table_def)

lemma help_loop_prints:
  "help_loop es s = s\<lparr>stdout := stdout s @ concat (map (\<lambda>e. cmd e @ '' - '' @ doc e @ ''\<newline>'') es)\<rparr>"
  by (induction es arbitrary: s) (simp_all add: print_out_def)

lemma cmd_help_prints:
  "cmd_help tokens s =
     Returns 1 (s\<lparr>stdout := stdout s @ concat (map (\<lambda>e. cmd e @ '' - '' @ doc e @ ''\<newline>'') cmd_table)\<rparr>)"
  by (simp add: cmd_help_def help_loop_prints)

text \<open>
  C9: the help builtin is registered under the name \<open>?\<close>; the table's names are \<open>?\<close>,
  \<open>exit\<close>, \<open>pwd\<close> and \<open>cd\<close>. The word \<open>help\<close> matches none of them, and a line that
  starts with it goes on to the dispatch of external commands: \<open>stat\<close> on \<open>help\<close>, then the
  path search, then "command not found". A line that starts with \<open>?\<close> reaches \<open>cmd_help\<close>,
  which prints \<open>name - doc\<close> for each entry of the table, in order, and returns 1.
\<close>

theorem help_is_registered_as_question_mark:
  "map cmd cmd_table = [''?'', ''exit'', ''pwd'', ''cd'']
   \<and> lookup (Some ''help'') = Inr (- 1)
   \<and> run_command (''help'' # args) s =
       (case stat ''help'' s of
          (found, s1) \<Rightarrow>
            if found then fork_exec_wait ''help'' (''help'' # args) s1
            else
              (case search_path ''help'' s1 of
                 (Some pathname, s2) \<Rightarrow> fork_exec_wait pathname (''help'' # args) s2
               | (None, s2) \<Rightarrow> Returns () (print_err ''help: command not found\<newline>'' s2)))
   \<and> lookup (Some ''?'') = Inr 0
   \<and> fn (cmd_table ! 0) = Cmd_help
   \<and> cmd_help tokens s =
       Returns 1 (s\<lparr>stdout := stdout s @ concat (map (\<lambda>e. cmd e @ '' - '' @ doc e @ ''\<newline>'') cmd_table)\<rparr>)
   \<and> run_command (''?'' # args) s =
       Returns () (s\<lparr>stdout := stdout s @
         ''? - show this help menu\<newline>exit - exit the command shell\<newline>pwd - print working directory\<newline>cd - change working directory\<newline>''\<rparr>)"
proof -
  have names: "map cmd cmd_table = [''?'', ''exit'', ''pwd'', ''cd'']"
    by (simp add: cmd_table_def)
  have no_help: "lookup (Some ''help'') = Inr (- 1)"
    by (rule lookup_other) (simp add: names)
  have ext: "run_command (''help'' # args) s =
       (case stat ''help'' s of
          (found, s1) \<Rightarrow>
            if found then fork_exec_wait ''help'' (''help'' # args) s1
            else
              (case search_path ''help'' s1 of
                 (Some pathname, s2) \<Rightarrow> fork_exec_wait pathname (''help'' # args) s2
               | (None, s2) \<Rightarrow> Returns () (print_err ''help: command not found\<newline>'' s2)))"
    by (simp add: run_command_def tokens_get_token_def tokens_get_length_def no_help
        split: prod.splits option.splits)
  have slot0: "fn (cmd_table ! 0) = Cmd_help"
    by (simp add: cmd_table_def)
  have hlp: "cmd_help tokens s =
       Returns 1 (s\<lparr>stdout := stdout s @ concat (map (\<lambda>e. cmd e @ '' - '' @ doc e @ ''\<newline>'') cmd_table)\<rparr>)"
    by (rule cmd_help_prints)
  have qm: "run_command (''?'' # args) s =
       Returns () (s\<lparr>stdout := stdout s @
         ''? - show this help menu\<newline>exit - exit the command shell\<newline>pwd - print working directory\<newline>cd - change working directory\<newline>''\<rparr>)"
    by (simp add: run_command_def tokens_get_token_def lookup_names slot0 cmd_help_prints)
       (simp add: cmd_table_def)
  from names no_help ext lookup_names(1) slot0 hlp qm show ?thesis by blast
qed

text \<open>
  C4: \<open>cmd_cd\<close> on any token sequence. With more than two tokens it writes the usage
  error to standard error and changes nothing else, the working directory included. With
  exactly two it calls \<open>chdir\<close> on the second: on success the working directory is the
  new one, on failure \<open>cd: <error description>\<close> goes to standard error. With one token
  and \<open>HOME\<close> set it does the same with the value of \<open>HOME\<close>. In every case, whatever the
  tokens and the state, it returns 0.
\<close>

theorem cmd_cd_behaviour:
  "(2 < tokens_get_length tokens \<longrightarrow>
      cmd_cd tokens s = Returns 0 (s\<lparr>stderr := stderr s @ ''cd: too many arguments\<newline>''\<rparr>))
   \<and> (tokens_get_length tokens = 2 \<longrightarrow>
      cmd_cd tokens s =
        (case dir_lookup s (cwd s) (tokens ! 1) of
           Inr d \<Rightarrow> Returns 0 (s\<lparr>cwd := d, events := events s @ [Call_chdir (Some (tokens ! 1))]\<rparr>)
         | Inl e \<Rightarrow> Returns 0 (s\<lparr>stderr := stderr s @ ''cd: '' @ strerror e @ ''\<newline>'',
                                 events := events s @ [Call_chdir (Some (tokens ! 1))]\<rparr>)))
   \<and> (tokens_get_length tokens = 1 \<and> environ s ''HOME'' = Some home \<longrightarrow>
      cmd_cd tokens s =
        (case dir_lookup s (cwd s) home of
           Inr d \<Rightarrow> Returns 0 (s\<lparr>cwd := d,
                                 events := events s @ [Call_getenv ''HOME'', Call_chdir (Some home)]\<rparr>)
         | Inl e \<Rightarrow> Returns 0 (s\<lparr>stderr := stderr s @ ''cd: '' @ strerror e @ ''\<newline>'',
                                 events := events s @ [Call_getenv ''HOME'', Call_chdir (Some home)]\<rparr>)))
   \<and> (\<exists>s'. cmd_cd tokens s = Returns 0 s')"
proof (intro conjI impI)
  assume "2 < tokens_get_length tokens"
  then show "cmd_cd tokens s = Returns 0 (s\<lparr>stderr := stderr s @ ''cd: too many arguments\<newline>''\<rparr>)"
    by (simp add: cmd_cd_def print_err_def)
next
  assume "tokens_get_length tokens = 2"
  then show "cmd_cd tokens s =
        (case dir_lookup s (cwd s) (tokens ! 1) of
           Inr d \<Rightarrow> Returns 0 (s\<lparr>cwd := d, events := events s @ [Call_chdir (Some (tokens ! 1))]\<rparr>)
         | Inl e \<Rightarrow> Returns 0 (s\<lparr>stderr := stderr s @ ''cd: '' @ strerror e @ ''\<newline>'',
                                 events := events s @ [Call_chdir (Some (tokens ! 1))]\<rparr>))"
    by (simp add: cmd_cd_def tokens_get_length_def tokens_get_token_def chdir_def log_event_def
        perror_def print_err_def split: sum.splits)
next
  assume "tokens_get_length tokens = 1 \<and> environ s ''HOME'' = Some home"
  then show "cmd_cd tokens s =
        (case dir_lookup s (cwd s) home of
           Inr d \<Rightarrow> Returns 0 (s\<lparr>cwd := d,
                                 events := events s @ [Call_getenv ''HOME'', Call_chdir (Some home)]\<rparr>)
         | Inl e \<Rightarrow> Returns 0 (s\<lparr>stderr := stderr s @ ''cd: '' @ strerror e @ ''\<newline>'',
                                 events := events s @ [Call_getenv ''HOME'', Call_chdir (Some home)]\<rparr>))"
    by (simp add: cmd_cd_def getenv_def chdir_def log_event_def
        perror_def print_err_def split: sum.splits)
next
  show "\<exists>s'. cmd_cd tokens s = Returns 0 s'"
    by (simp add: cmd_cd_def Let_def split: prod.splits option.splits)
qed

theorem cmd_cd_behaviour_witness:
  "2 < tokens_get_length [''cd'', ''/tmp'', ''/root'']
   \<and> cmd_cd [''cd'', ''/tmp'', ''/root''] os_demo =
       Returns 0 (os_demo\<lparr>stderr := ''cd: too many arguments\<newline>''\<rparr>)
   \<and> tokens_get_length [''cd'', ''/tmp''] = 2
   \<and> cmd_cd [''cd'', ''/tmp''] os_demo =
       Returns 0 (os_demo\<lparr>cwd := ''/tmp'', events := [Call_chdir (Some ''/tmp'')]\<rparr>)
   \<and> tokens_get_length [''cd'', ''/nowhere''] = 2
   \<and> cmd_cd [''cd'', ''/nowhere''] os_demo =
       Returns 0 (os_demo\<lparr>stderr := ''cd: No such file or directory\<newline>'',
                          events := [Call_chdir (Some ''/nowhere'')]\<rparr>)
   \<and> tokens_get_length [''cd''] = 1 \<and> environ os_demo ''HOME'' = Some ''/root''
   \<and> cmd_cd [''cd''] os_demo =
       Returns 0 (os_demo\<lparr>cwd := ''/root'',
                          events := [Call_getenv ''HOME'', Call_chdir (Some ''/root'')]\<rparr>)"
  using cmd_cd_behaviour [of "[''cd'', ''/tmp'', ''/root'']" os_demo]
    cmd_cd_behaviour [of "[''cd'', ''/tmp'']" os_demo]
    cmd_cd_behaviour [of "[''cd'', ''/nowhere'']" os_demo]
    cmd_cd_behaviour [of "[''cd'']" os_demo "''/root''"]
  by (simp add: tokens_get_length_def os_demo_def)

lemma cmd_pwd_null:
  assumes "getcwd_errno s (cwd s) = Some e"
  shows "cmd_pwd tokens s = Faults Null_string (s\<lparr>events := events s @ [Call_getcwd]\<rparr>)"
  using assms by (simp add: cmd_pwd_def getcwd_def log_event_def)

text \<open>
  C8 (the code at the failing input): in a working directory for which \<open>getcwd\<close> fails,
  \<open>cmd_pwd\<close> passes the null result to \<open>printf("%s\n", cwd)\<close>. Nothing is written to
  standard error and the builtin does not return 0: no error is reported.
\<close>

theorem cmd_pwd_getcwd_failure:
  "getcwd_errno os_cwd_gone (cwd os_cwd_gone) = Some ENOENT
   \<and> cmd_pwd [''pwd''] os_cwd_gone = Faults Null_string (os_cwd_gone\<lparr>events := [Call_getcwd]\<rparr>)
   \<and> stderr (state_of (cmd_pwd [''pwd''] os_cwd_gone)) = []
   \<and> run_command [''pwd''] os_cwd_gone = Faults Null_string (os_cwd_gone\<lparr>events := [Call_getcwd]\<rparr>)"
  by (simp add: cmd_pwd_def getcwd_def log_event_def os_cwd_gone_def os_demo_def run_command_def
      tokens_get_token_def lookup_names cmd_table_def)

lemma main_loop_step:
  assumes "fgets 4096 inp = Some (line, rest)"
    and "shell_line (tokenize line) n s = Returns n' s'"
  shows "main_loop tokenize inp n s = main_loop tokenize rest n' s'"
  using assms by (subst main_loop.simps) simp

lemma main_loop_eof: "main_loop tokenize [] n s = Exits 0 s"
  by (subst main_loop.simps) (simp add: fgets_def)

text \<open>
  C7: with \<open>HOME\<close> unset, a bare \<open>cd\<close> passes the null result of \<open>getenv\<close> to \<open>chdir\<close>,
  which fails with \<open>EFAULT\<close>. \<open>cmd_cd\<close> reports \<open>cd: Bad address\<close> on standard error and
  returns 0, the working directory is unchanged, the turn of the loop ends normally (next
  prompt when interactive, tokens released), and the loop goes on with the rest of the
  input.
\<close>

theorem cd_without_home_is_not_fatal:
  assumes "environ s ''HOME'' = None"
  shows "cmd_cd [''cd''] s =
           Returns 0 (s\<lparr>stderr := stderr s @ ''cd: Bad address\<newline>'',
                        events := events s @ [Call_getenv ''HOME'', Call_chdir None]\<rparr>)
    \<and> shell_line [''cd''] n s =
         (if shell_is_interactive s
          then Returns (n + 1)
                 (s\<lparr>stdout := stdout s @ show_int (n + 1) @ '': '',
                    stderr := stderr s @ ''cd: Bad address\<newline>'',
                    events := events s @ [Call_getenv ''HOME'', Call_chdir None, Call_tokens_destroy]\<rparr>)
          else Returns n
                 (s\<lparr>stderr := stderr s @ ''cd: Bad address\<newline>'',
                    events := events s @ [Call_getenv ''HOME'', Call_chdir None, Call_tokens_destroy]\<rparr>))
    \<and> (fgets 4096 inp = Some (line, rest) \<and> tokenize line = [''cd''] \<longrightarrow>
         main_loop tokenize inp n s =
           (if shell_is_interactive s
            then main_loop tokenize rest (n + 1)
                 (s\<lparr>stdout := stdout s @ show_int (n + 1) @ '': '',
                    stderr := stderr s @ ''cd: Bad address\<newline>'',
                    events := events s @ [Call_getenv ''HOME'', Call_chdir None, Call_tokens_destroy]\<rparr>)
            else main_loop tokenize rest n
                 (s\<lparr>stderr := stderr s @ ''cd: Bad address\<newline>'',
                    events := events s @ [Call_getenv ''HOME'', Call_chdir None, Call_tokens_destroy]\<rparr>)))"
proof -
  have cd: "cmd_cd [''cd''] s =
           Returns 0 (s\<lparr>stderr := stderr s @ ''cd: Bad address\<newline>'',
                        events := events s @ [Call_getenv ''HOME'', Call_chdir None]\<rparr>)"
    using assms
    by (simp add: cmd_cd_def tokens_get_length_def getenv_def chdir_def log_event_def
        perror_def print_err_def)
  have run: "run_command [''cd''] s =
           Returns () (s\<lparr>stderr := stderr s @ ''cd: Bad address\<newline>'',
                        events := events s @ [Call_getenv ''HOME'', Call_chdir None]\<rparr>)"
    by (simp add: run_command_def tokens_get_token_def lookup_names cmd_table_def cd)
  have line: "shell_line [''cd''] n s =
         (if shell_is_interactive s
          then Returns (n + 1)
                 (s\<lparr>stdout := stdout s @ show_int (n + 1) @ '': '',
                    stderr := stderr s @ ''cd: Bad address\<newline>'',
                    events := events s @ [Call_getenv ''HOME'', Call_chdir None, Call_tokens_destroy]\<rparr>)
          else Returns n
                 (s\<lparr>stderr := stderr s @ ''cd: Bad address\<newline>'',
                    events := events s @ [Call_getenv ''HOME'', Call_chdir None, Call_tokens_destroy]\<rparr>))"
    by (simp add: shell_line_def run tokens_destroy_def log_event_def print_out_def)
  show ?thesis
  proof (intro conjI impI)
    show "cmd_cd [''cd''] s =
           Returns 0 (s\<lparr>stderr := stderr s @ ''cd: Bad address\<newline>'',
                        events := events s @ [Call_getenv ''HOME'', Call_chdir None]\<rparr>)"
      by (rule cd)
  next
    show "shell_line [''cd''] n s =
         (if shell_is_interactive s
          then Returns (n + 1)
                 (s\<lparr>stdout := stdout s @ show_int (n + 1) @ '': '',
                    stderr := stderr s @ ''cd: Bad address\<newline>'',
                    events := events s @ [Call_getenv ''HOME'', Call_chdir None, Call_tokens_destroy]\<rparr>)
          else Returns n
                 (s\<lparr>stderr := stderr s @ ''cd: Bad address\<newline>'',
                    events := events s @ [Call_getenv ''HOME'', Call_chdir None, Call_tokens_destroy]\<rparr>))"
      by (rule line)
  next
    assume a: "fgets 4096 inp = Some (line, rest) \<and> tokenize line = [''cd'']"
    show "main_loop tokenize inp n s =
           (if shell_is_interactive s
            then main_loop tokenize rest (n + 1)
                 (s\<lparr>stdout := stdout s @ show_int (n + 1) @ '': '',
                    stderr := stderr s @ ''cd: Bad address\<newline>'',
                    events := events s @ [Call_getenv ''HOME'', Call_chdir None, Call_tokens_destroy]\<rparr>)
            else main_loop tokenize rest n
                 (s\<lparr>stderr := stderr s @ ''cd: Bad address\<newline>'',
                    events := events s @ [Call_getenv ''HOME'', Call_chdir None, Call_tokens_destroy]\<rparr>))"
    proof (cases "shell_is_interactive s")
      case True
      with a line show ?thesis by (simp add: main_loop_step)
    next
      case False
      with a line show ?thesis by (simp add: main_loop_step)
    qed
  qed
qed

theorem cd_without_home_is_not_fatal_witness:
  "environ os_homeless ''HOME'' = None
   \<and> cmd_cd [''cd''] os_homeless =
       Returns 0 (os_homeless\<lparr>stderr := ''cd: Bad address\<newline>'',
                              events := [Call_getenv ''HOME'', Call_chdir None]\<rparr>)
   \<and> fgets 4096 ''cd\<newline>pwd\<newline>'' = Some (''cd\<newline>'', ''pwd\<newline>'')
   \<and> main_loop (\<lambda>l. if l = ''cd\<newline>'' then [''cd''] else [''pwd'']) ''cd\<newline>pwd\<newline>'' 0 os_homeless =
       main_loop (\<lambda>l. if l = ''cd\<newline>'' then [''cd''] else [''pwd'']) ''pwd\<newline>'' 1
         (os_homeless\<lparr>stdout := ''1: '', stderr := ''cd: Bad address\<newline>'',
                      events := [Call_getenv ''HOME'', Call_chdir None, Call_tokens_destroy]\<rparr>)"
proof -
  have env: "environ os_homeless ''HOME'' = None"
    by (simp add: os_homeless_def os_demo_def)
  have rd: "fgets 4096 ''cd\<newline>pwd\<newline>'' = Some (''cd\<newline>'', ''pwd\<newline>'')"
    by (simp add: fgets_def)
  have inter: "shell_is_interactive os_homeless" "stdout os_homeless = []"
    "stderr os_homeless = []" "events os_homeless = []"
    by (simp_all add: os_homeless_def os_demo_def)
  have one: "show_int (0 + 1) = ''1''"
    by (simp add: show_int_def dec_nat.simps)
  from cd_without_home_is_not_fatal [OF env, of 0 "''cd\<newline>pwd\<newline>''" "''cd\<newline>''" "''pwd\<newline>''"
      "\<lambda>l. if l = ''cd\<newline>'' then [''cd''] else [''pwd'']"]
  show ?thesis
    using env rd inter one by simp
qed

section \<open>Dispatch of a line\<close>

lemma state_of_discard: "state_of (discard r) = state_of r"
  by (cases r) simp_all

lemma call_no_spawn:
  "\<exists>es. events (state_of (call f tokens s)) = events s @ es \<and> filter spawn_event es = []"
proof (cases f)
  case Cmd_help
  then show ?thesis by (simp add: cmd_help_prints)
next
  case Cmd_exit
  then show ?thesis by (simp add: cmd_exit_def tokens_destroy_def log_event_def)
next
  case Cmd_pwd
  then show ?thesis
    by (simp add: cmd_pwd_def getcwd_def log_event_def print_out_def split: option.splits)
next
  case Cmd_cd
  then show ?thesis
    by (simp add: cmd_cd_def getenv_def chdir_def log_event_def perror_def print_err_def Let_def
        split: option.splits sum.splits)
qed

text \<open>
  C1: when the first token of a line is one of the names in the table, \<open>lookup\<close> finds
  its index, the turn of the loop is the call of that entry's handler through the table,
  and among the calls made during the turn there is no \<open>stat\<close>, no lookup of \<open>PATH\<close>,
  no \<open>fork\<close>, no \<open>execv\<close> and no \<open>waitpid\<close>: the direct-path check, the path search and
  the creation of a child are skipped.
\<close>

theorem builtin_runs_without_child:
  assumes "tokens_get_token tokens 0 = Some name"
    and "name \<in> set (map cmd cmd_table)"
  shows "\<exists>i<length cmd_table.
           cmd (cmd_table ! i) = name
           \<and> lookup (Some name) = Inr (int i)
           \<and> run_command tokens s = discard (call (fn (cmd_table ! i)) tokens s)
           \<and> (\<exists>es. events (state_of (run_command tokens s)) = events s @ es
                    \<and> filter spawn_event es = [])"
proof -
  from assms(2) consider "name = ''?''" | "name = ''exit''" | "name = ''pwd''" | "name = ''cd''"
    by (auto simp: cmd_table_def)
  then obtain i where i: "i < length cmd_table" "cmd (cmd_table ! i) = name"
    "lookup (Some name) = Inr (int i)"
  proof cases
    case 1
    with that [of 0] show ?thesis by (simp add: lookup_names cmd_table_def)
  next
    case 2
    with that [of 1] show ?thesis by (simp add: lookup_names cmd_table_def)
  next
    case 3
    with that [of 2] show ?thesis by (simp add: lookup_names cmd_table_def)
  next
    case 4
    with that [of 3] show ?thesis by (simp add: lookup_names cmd_table_def)
  qed
  from assms(1) i(3) have run: "run_command tokens s = discard (call (fn (cmd_table ! i)) tokens s)"
    by (simp add: run_command_def)
  from call_no_spawn [of "fn (cmd_table ! i)" tokens s]
  have "\<exists>es. events (state_of (run_command tokens s)) = events s @ es \<and> filter spawn_event es = []"
    by (simp add: run state_of_discard)
  with i run show ?thesis by blast
qed

theorem builtin_runs_without_child_witness:
  "tokens_get_token [''cd'', ''/tmp''] 0 = Some ''cd''
   \<and> ''cd'' \<in> set (map cmd cmd_table)
   \<and> (\<exists>i<length cmd_table.
           cmd (cmd_table ! i) = ''cd''
           \<and> lookup (Some ''cd'') = Inr (int i)
           \<and> run_command [''cd'', ''/tmp''] os_demo = discard (call (fn (cmd_table ! i)) [''cd'', ''/tmp''] os_demo)
           \<and> (\<exists>es. events (state_of (run_command [''cd'', ''/tmp''] os_demo)) = events os_demo @ es
                    \<and> filter spawn_event es = []))
   \<and> run_command [''cd'', ''/tmp''] os_demo =
       Returns () (os_demo\<lparr>cwd := ''/tmp'', events := [Call_chdir (Some ''/tmp'')]\<rparr>)"
proof -
  have t: "tokens_get_token [''cd'', ''/tmp''] 0 = Some ''cd''"
    by (simp add: tokens_get_token_def)
  have n: "''cd'' \<in> set (map cmd cmd_table)"
    by (simp add: cmd_table_def)
  have cd: "cmd_cd [''cd'', ''/tmp''] os_demo =
       Returns 0 (os_demo\<lparr>cwd := ''/tmp'', events := [Call_chdir (Some ''/tmp'')]\<rparr>)"
    by (simp add: cmd_cd_def tokens_get_length_def tokens_get_token_def chdir_def log_event_def
        os_demo_def)
  have slot3: "fn (cmd_table ! 3) = Cmd_cd"
    by (simp add: cmd_table_def)
  have r: "run_command [''cd'', ''/tmp''] os_demo =
       Returns () (os_demo\<lparr>cwd := ''/tmp'', events := [Call_chdir (Some ''/tmp'')]\<rparr>)"
    by (simp add: run_command_def tokens_get_token_def lookup_names slot3 cd)
  note b = builtin_runs_without_child [OF t n, of os_demo]
  show ?thesis
    by (intro conjI) (rule t, rule n, rule b, rule r)
qed

lemma args_of_tokens:
  "map (tokens_get_token tokens) [0..<tokens_get_length tokens] @ [None] = map Some tokens @ [None]"
proof -
  have "map (tokens_get_token tokens) [0..<tokens_get_length tokens] = map Some tokens"
    by (rule nth_equalityI) (simp_all add: tokens_get_token_def tokens_get_length_def)
  then show ?thesis by simp
qed

text \<open>
  The direct path when \<open>fork\<close> succeeds. The first token is not a name in the table and
  \<open>stat\<close> succeeds on it; the shell forks right after that \<open>stat\<close>. In the parent, where
  \<open>fork\<close> returns the child's pid, the only further call is \<open>waitpid\<close> on that pid, and the
  turn then returns to the loop. In the child, where \<open>fork\<close> returns 0, \<open>execv\<close> is called
  on the first token itself with all tokens followed by a null pointer as the argument
  vector; if \<open>execv\<close> fails the child reports the error and exits with 1. Whatever \<open>fork\<close>
  returns, \<open>PATH\<close> is not read.
\<close>

lemma direct_path_after_fork:
  assumes "tokens_get_token tokens 0 = Some tok0"
    and "tok0 \<notin> set (map cmd cmd_table)"
    and "stat_ok s (cwd s) tok0"
  shows "(\<forall>pid rs. fork_rets s = pid # rs \<and> 0 < pid \<longrightarrow>
            run_command tokens s =
              Returns () (s\<lparr>fork_rets := rs,
                            events := events s @ [Call_stat tok0, Call_fork pid, Call_waitpid pid]\<rparr>))
       \<and> (\<forall>rs. fork_rets s = 0 # rs \<and> execv_errno s tok0 = None \<longrightarrow>
            run_command tokens s =
              Replaced tok0 (map Some tokens @ [None])
                (s\<lparr>fork_rets := rs,
                   events := events s @ [Call_stat tok0, Call_fork 0,
                                         Call_execv tok0 (map Some tokens @ [None])]\<rparr>))
       \<and> (\<forall>rs e. fork_rets s = 0 # rs \<and> execv_errno s tok0 = Some e \<longrightarrow>
            run_command tokens s =
              Exits 1
                (s\<lparr>fork_rets := rs,
                   stderr := stderr s @ tok0 @ '': '' @ strerror e @ ''\<newline>'',
                   events := events s @ [Call_stat tok0, Call_fork 0,
                                         Call_execv tok0 (map Some tokens @ [None])]\<rparr>))
       \<and> (\<exists>es. events (state_of (run_command tokens s)) = events s @ es
                \<and> Call_getenv ''PATH'' \<notin> set es)"
proof -
  from assms(1) have len: "0 < tokens_get_length tokens"
    by (auto simp: tokens_get_token_def tokens_get_length_def split: if_splits)
  have run: "run_command tokens s = fork_exec_wait tok0 tokens (log_event (Call_stat tok0) s)"
    using assms len by (simp add: run_command_def lookup_other stat_def)
  show ?thesis
    unfolding run
    by (auto simp: fork_exec_wait_def fork_def waitpid_def execv_def perror_def print_err_def
        log_event_def args_of_tokens Let_def split: list.splits option.splits)
qed

lemma direct_path_after_fork_demo:
  "tokens_get_token [''/bin/echo'', ''hi''] 0 = Some ''/bin/echo''
   \<and> ''/bin/echo'' \<notin> set (map cmd cmd_table)
   \<and> stat_ok os_demo (cwd os_demo) ''/bin/echo''
   \<and> fork_rets os_demo = [4711]
   \<and> run_command [''/bin/echo'', ''hi''] os_demo =
       Returns () (os_demo\<lparr>fork_rets := [],
                     events := [Call_stat ''/bin/echo'', Call_fork 4711, Call_waitpid 4711]\<rparr>)
   \<and> stat_ok os_child (cwd os_child) ''/bin/echo''
   \<and> fork_rets os_child = [0] \<and> execv_errno os_child ''/bin/echo'' = None
   \<and> run_command [''/bin/echo'', ''hi''] os_child =
       Replaced ''/bin/echo'' [Some ''/bin/echo'', Some ''hi'', None]
         (os_child\<lparr>fork_rets := [],
            events := [Call_stat ''/bin/echo'', Call_fork 0,
                       Call_execv ''/bin/echo'' [Some ''/bin/echo'', Some ''hi'', None]]\<rparr>)"
proof -
  have t: "tokens_get_token [''/bin/echo'', ''hi''] 0 = Some ''/bin/echo''"
    by (simp add: tokens_get_token_def)
  have n: "''/bin/echo'' \<notin> set (map cmd cmd_table)"
    by (simp add: cmd_table_def)
  have p: "stat_ok os_demo (cwd os_demo) ''/bin/echo''" "fork_rets os_demo = [4711]"
    "events os_demo = []"
    by (simp_all add: os_demo_def)
  have c: "stat_ok os_child (cwd os_child) ''/bin/echo''" "fork_rets os_child = [0]"
    "execv_errno os_child ''/bin/echo'' = None" "events os_child = []"
    by (simp_all add: os_child_def os_demo_def)
  have parent: "run_command [''/bin/echo'', ''hi''] os_demo =
       Returns () (os_demo\<lparr>fork_rets := [],
                     events := [Call_stat ''/bin/echo'', Call_fork 4711, Call_waitpid 4711]\<rparr>)"
    using direct_path_after_fork [OF t n p(1), THEN conjunct1, rule_format, of 4711 "[]"] p
    by simp
  have child: "run_command [''/bin/echo'', ''hi''] os_child =
       Replaced ''/bin/echo'' [Some ''/bin/echo'', Some ''hi'', None]
         (os_child\<lparr>fork_rets := [],
            events := [Call_stat ''/bin/echo'', Call_fork 0,
                       Call_execv ''/bin/echo'' [Some ''/bin/echo'', Some ''hi'', None]]\<rparr>)"
    using direct_path_after_fork [OF t n c(1), THEN conjunct2, THEN conjunct1, rule_format, of "[]"] c
    by simp
  show ?thesis
    by (intro conjI)
      (rule t, rule n, rule p(1), rule p(2), rule parent, rule c(1), rule c(2), rule c(3), rule child)
qed

text \<open>
  When \<open>fork\<close> fails, its return value -1 is not zero, so the code takes the parent's
  branch: it waits for pid -1, runs nothing, reports nothing, and returns to the loop.
\<close>

lemma direct_path_when_fork_fails:
  assumes "tokens_get_token tokens 0 = Some tok0"
    and "tok0 \<notin> set (map cmd cmd_table)"
    and "stat_ok s (cwd s) tok0"
    and "fork_rets s = (- 1) # rs"
  shows "run_command tokens s =
           Returns () (s\<lparr>fork_rets := rs,
                         events := events s @ [Call_stat tok0, Call_fork (- 1), Call_waitpid (- 1)]\<rparr>)"
proof -
  from assms(1) have len: "0 < tokens_get_length tokens"
    by (auto simp: tokens_get_token_def tokens_get_length_def split: if_splits)
  have "run_command tokens s = fork_exec_wait tok0 tokens (log_event (Call_stat tok0) s)"
    using assms(1-3) len by (simp add: run_command_def lookup_other stat_def)
  with assms(4) show ?thesis
    by (simp add: fork_exec_wait_def fork_def waitpid_def log_event_def)
qed

text \<open>
  C2 (the code at the failing input): the line \<open>/bin/echo hi\<close>, whose first token is no
  builtin name and a path on which \<open>stat\<close> succeeds, entered when \<open>fork\<close> fails. The calls
  of the turn are \<open>stat\<close>, the failed \<open>fork\<close> and \<open>waitpid(-1)\<close>: \<open>execv\<close> is never called,
  so the file is not executed and there is no child to wait for; nothing is written to
  standard error, and the turn returns to the loop as if the command had run.
\<close>

theorem direct_path_fork_failure:
  "tokens_get_token [''/bin/echo'', ''hi''] 0 = Some ''/bin/echo''
   \<and> ''/bin/echo'' \<notin> set (map cmd cmd_table)
   \<and> stat_ok os_fork_fails (cwd os_fork_fails) ''/bin/echo''
   \<and> fork os_fork_fails = (- 1, os_fork_fails\<lparr>fork_rets := [], events := [Call_fork (- 1)]\<rparr>)
   \<and> run_command [''/bin/echo'', ''hi''] os_fork_fails =
       Returns () (os_fork_fails\<lparr>fork_rets := [],
                     events := [Call_stat ''/bin/echo'', Call_fork (- 1), Call_waitpid (- 1)]\<rparr>)
   \<and> stderr (state_of (run_command [''/bin/echo'', ''hi''] os_fork_fails)) = []"
proof -
  have t: "tokens_get_token [''/bin/echo'', ''hi''] 0 = Some ''/bin/echo''"
    by (simp add: tokens_get_token_def)
  have n: "''/bin/echo'' \<notin> set (map cmd cmd_table)"
    by (simp add: cmd_table_def)
  have p: "stat_ok os_fork_fails (cwd os_fork_fails) ''/bin/echo''"
    "fork_rets os_fork_fails = [- 1]" "events os_fork_fails = []" "stderr os_fork_fails = []"
    by (simp_all add: os_fork_fails_def os_demo_def)
  have f: "fork os_fork_fails =
      (- 1, os_fork_fails\<lparr>fork_rets := [], events := [Call_fork (- 1)]\<rparr>)"
    by (simp add: fork_def log_event_def p)
  have r: "run_command [''/bin/echo'', ''hi''] os_fork_fails =
       Returns () (os_fork_fails\<lparr>fork_rets := [],
                     events := [Call_stat ''/bin/echo'', Call_fork (- 1), Call_waitpid (- 1)]\<rparr>)"
    using direct_path_when_fork_fails [OF t n p(1) p(2)] by (simp add: p)
  have e: "stderr (state_of (run_command [''/bin/echo'', ''hi''] os_fork_fails)) = []"
    by (simp add: r p)
  show ?thesis
    by (intro conjI) (rule t, rule n, rule p(1), rule f, rule r, rule e)
qed

section \<open>The path search\<close>

lemma split_fields_not_Nil: "split_fields d s \<noteq> []"
  by (induction s) (auto split: list.splits)

text \<open>
  \<open>split_fields\<close> is the split at the delimiter: joined again by it, the fields give the
  string back, and no field holds the delimiter.
\<close>

lemma split_fields_join: "join_fields d (split_fields d s) = s"
proof (induction s)
  case Nil
  show ?case by simp
next
  case (Cons c s)
  obtain f fs where sp: "split_fields d s = f # fs"
    using split_fields_not_Nil [of d s] by (cases "split_fields d s") auto
  show ?case
  proof (cases "c = d")
    case True
    with Cons sp show ?thesis by simp
  next
    case False
    have "join_fields d ((c # f) # fs) = c # join_fields d (f # fs)"
      by (cases fs) auto
    with Cons sp False show ?thesis by simp
  qed
qed

lemma split_fields_no_delim: "f \<in> set (split_fields d s) \<Longrightarrow> d \<notin> set f"
proof (induction s arbitrary: f)
  case Nil
  then show ?case by simp
next
  case (Cons c s)
  obtain g gs where sp: "split_fields d s = g # gs"
    using split_fields_not_Nil [of d s] by (cases "split_fields d s") auto
  show ?case
  proof (cases "c = d")
    case True
    with Cons show ?thesis by auto
  next
    case False
    with Cons.prems sp have "f = c # g \<or> f \<in> set gs" by simp
    then show ?thesis
    proof
      assume "f = c # g"
      with Cons.IH [of g] sp False show ?thesis by simp
    next
      assume "f \<in> set gs"
      with Cons.IH [of f] sp show ?thesis by simp
    qed
  qed
qed

lemma split_fields_skip_delims:
  "filter (\<lambda>f. f \<noteq> []) (split_fields d (dropWhile (\<lambda>c. c = d) s)) = filter (\<lambda>f. f \<noteq> []) (split_fields d s)"
  by (induction s) auto

lemma split_fields_first:
  "split_fields d s =
     (case dropWhile (\<lambda>c. c \<noteq> d) s of
        [] \<Rightarrow> [takeWhile (\<lambda>c. c \<noteq> d) s]
      | x # rest \<Rightarrow> takeWhile (\<lambda>c. c \<noteq> d) s # split_fields d rest)"
proof (induction s)
  case Nil
  show ?case by simp
next
  case (Cons a s)
  show ?case
  proof (cases "a = d")
    case True
    then show ?thesis by simp
  next
    case False
    show ?thesis
    proof (cases "dropWhile (\<lambda>c. c \<noteq> d) s")
      case Nil
      with Cons False show ?thesis by (simp del: dropWhile_eq_Nil_conv)
    next
      case (Cons x rest)
      with Cons.IH False show ?thesis by (simp del: dropWhile_eq_Nil_conv)
    qed
  qed
qed

lemma path_dirs_Nil: "path_dirs [] = []"
  by (simp add: path_dirs_def)

lemma path_dirs_strtok:
  "path_dirs s =
     (case strtok s '':'' of None \<Rightarrow> [] | Some (token, rest) \<Rightarrow> token # path_dirs rest)"
proof -
  define start where "start = dropWhile (\<lambda>c. c = CHR '':'') s"
  define token where "token = takeWhile (\<lambda>c. c \<noteq> CHR '':'') start"
  define after where "after = dropWhile (\<lambda>c. c \<noteq> CHR '':'') start"
  have dirs: "path_dirs s = filter (\<lambda>f. f \<noteq> []) (split_fields CHR '':'' start)"
    by (simp add: path_dirs_def start_def split_fields_skip_delims)
  show ?thesis
  proof (cases start)
    case Nil
    then have "strtok s '':'' = None"
      by (simp add: strtok_def start_def)
    with Nil dirs show ?thesis by simp
  next
    case (Cons c cs)
    then have c: "c \<noteq> CHR '':''"
      using hd_dropWhile [of "\<lambda>c. c = CHR '':''" s] by (simp add: start_def)
    have tok: "strtok s '':'' = Some (token, drop 1 after)"
      using Cons by (simp add: strtok_def start_def [symmetric] token_def after_def)
    from Cons c have ne: "token \<noteq> []" by (simp add: token_def)
    have first: "split_fields CHR '':'' start =
        (case after of [] \<Rightarrow> [token] | x # rest \<Rightarrow> token # split_fields CHR '':'' rest)"
      unfolding token_def after_def by (rule split_fields_first)
    have "path_dirs s = token # path_dirs (drop 1 after)"
    proof (cases after)
      case Nil
      with first ne show ?thesis by (simp add: dirs path_dirs_Nil)
    next
      case (Cons x rest)
      with first ne have "path_dirs s = token # filter (\<lambda>f. f \<noteq> []) (split_fields CHR '':'' rest)"
        by (simp add: dirs)
      with Cons show ?thesis by (simp add: path_dirs_def)
    qed
    with tok show ?thesis by simp
  qed
qed

lemma search_loop_first_match:
  "search_loop command rest s =
     (find (stat_ok s (cwd s)) (map (\<lambda>d. d @ ''/'' @ command) (path_dirs rest)),
      s\<lparr>events := events s @
           map Call_stat (tried (stat_ok s (cwd s)) (map (\<lambda>d. d @ ''/'' @ command) (path_dirs rest)))\<rparr>)"
proof (induction command rest s rule: search_loop.induct)
  case (1 command rest s)
  show ?case
  proof (cases "strtok rest '':''")
    case None
    then show ?thesis
      by (subst search_loop.simps) (simp add: path_dirs_strtok [of rest])
  next
    case (Some tr)
    obtain token rest' where tr: "tr = (token, rest')" by (cases tr)
    show ?thesis
    proof (cases "stat_ok s (cwd s) (token @ ''/'' @ command)")
      case True
      with Some tr show ?thesis
        by (subst search_loop.simps) (simp add: path_dirs_strtok [of rest] stat_def log_event_def Let_def)
    next
      case False
      have "search_loop command rest s =
          search_loop command rest' (log_event (Call_stat (token @ ''/'' @ command)) s)"
        using Some tr False by (subst search_loop.simps) (simp add: stat_def Let_def)
      also have "\<dots> =
          (find (stat_ok s (cwd s)) (map (\<lambda>d. d @ ''/'' @ command) (path_dirs rest')),
           s\<lparr>events := events s @ Call_stat (token @ ''/'' @ command) #
             map Call_stat (tried (stat_ok s (cwd s)) (map (\<lambda>d. d @ ''/'' @ command) (path_dirs rest')))\<rparr>)"
        using "1.IH" [OF Some, of token rest' "token @ ''/'' @ command" False
            "log_event (Call_stat (token @ ''/'' @ command)) s"] tr False
        by (simp add: stat_def log_event_def)
      finally show ?thesis
        using Some tr False by (simp add: path_dirs_strtok [of rest])
    qed
  qed
qed


text \<open>
  C3: \<open>search_path\<close> reads \<open>PATH\<close>; unset, the answer is not-found. Otherwise the
  directories are the non-empty fields of the value split at \<open>:\<close>, in order (the tokens
  \<open>strtok\<close> yields), the candidates \<open>dir/command\<close> are examined from the left, each by one
  \<open>stat\<close> and nothing else, up to the first for which \<open>stat\<close> succeeds, and that candidate is
  returned: the result is \<open>dir/command\<close> for the leftmost directory whose candidate
  exists. It is not-found when \<open>PATH\<close> is unset or empty, and otherwise exactly when no
  candidate exists.
\<close>

theorem search_path_first_match:
  "search_path command s =
     (case environ s ''PATH'' of
        None \<Rightarrow> (None, s\<lparr>events := events s @ [Call_getenv ''PATH'']\<rparr>)
      | Some p \<Rightarrow>
          (find (stat_ok s (cwd s)) (map (\<lambda>d. d @ ''/'' @ command) (path_dirs p)),
           s\<lparr>events := events s @ Call_getenv ''PATH'' #
                map Call_stat
                  (tried (stat_ok s (cwd s)) (map (\<lambda>d. d @ ''/'' @ command) (path_dirs p)))\<rparr>))
   \<and> (environ s ''PATH'' = None \<or> environ s ''PATH'' = Some [] \<longrightarrow>
        fst (search_path command s) = None)
   \<and> (\<forall>p. environ s ''PATH'' = Some p \<longrightarrow>
        (fst (search_path command s) = None \<longleftrightarrow>
           (\<forall>d \<in> set (path_dirs p). \<not> stat_ok s (cwd s) (d @ ''/'' @ command))))
   \<and> (\<forall>p r. environ s ''PATH'' = Some p \<longrightarrow>
        (fst (search_path command s) = Some r \<longleftrightarrow>
           (\<exists>i<length (path_dirs p).
               r = path_dirs p ! i @ ''/'' @ command \<and> stat_ok s (cwd s) r
               \<and> (\<forall>j<i. \<not> stat_ok s (cwd s) (path_dirs p ! j @ ''/'' @ command)))))"
proof -
  have eq: "search_path command s =
     (case environ s ''PATH'' of
        None \<Rightarrow> (None, s\<lparr>events := events s @ [Call_getenv ''PATH'']\<rparr>)
      | Some p \<Rightarrow>
          (find (stat_ok s (cwd s)) (map (\<lambda>d. d @ ''/'' @ command) (path_dirs p)),
           s\<lparr>events := events s @ Call_getenv ''PATH'' #
                map Call_stat
                  (tried (stat_ok s (cwd s)) (map (\<lambda>d. d @ ''/'' @ command) (path_dirs p)))\<rparr>))"
    by (simp add: search_path_def getenv_def log_event_def search_loop_first_match
        split: option.splits)
  have unset: "environ s ''PATH'' = None \<or> environ s ''PATH'' = Some [] \<longrightarrow>
        fst (search_path command s) = None"
    by (auto simp: eq path_dirs_Nil)
  have none: "\<forall>p. environ s ''PATH'' = Some p \<longrightarrow>
        (fst (search_path command s) = None \<longleftrightarrow>
           (\<forall>d \<in> set (path_dirs p). \<not> stat_ok s (cwd s) (d @ ''/'' @ command)))"
    by (auto simp: eq find_None_iff)
  have some: "\<forall>p r. environ s ''PATH'' = Some p \<longrightarrow>
        (fst (search_path command s) = Some r \<longleftrightarrow>
           (\<exists>i<length (path_dirs p).
               r = path_dirs p ! i @ ''/'' @ command \<and> stat_ok s (cwd s) r
               \<and> (\<forall>j<i. \<not> stat_ok s (cwd s) (path_dirs p ! j @ ''/'' @ command))))"
    by (auto simp: eq find_Some_iff)
  from eq unset none some show ?thesis by (intro conjI)
qed

lemma path_dirs_demo: "path_dirs ''/usr/bin::/bin'' = [''/usr/bin'', ''/bin'']"
  by (simp add: path_dirs_def)

theorem search_path_first_match_witness:
  "environ os_demo ''PATH'' = Some ''/usr/bin::/bin''
   \<and> path_dirs ''/usr/bin::/bin'' = [''/usr/bin'', ''/bin'']
   \<and> search_path ''env'' os_demo =
       (Some ''/usr/bin/env'',
        os_demo\<lparr>events := [Call_getenv ''PATH'', Call_stat ''/usr/bin/env'']\<rparr>)
   \<and> search_path ''ls'' os_demo =
       (Some ''/bin/ls'',
        os_demo\<lparr>events := [Call_getenv ''PATH'', Call_stat ''/usr/bin/ls'', Call_stat ''/bin/ls'']\<rparr>)
   \<and> fst (search_path ''nope'' os_demo) = None
   \<and> environ os_nopath ''PATH'' = None
   \<and> fst (search_path ''ls'' os_nopath) = None"
proof -
  have env: "environ os_demo ''PATH'' = Some ''/usr/bin::/bin''" "events os_demo = []"
    "cwd os_demo = ''/''"
    "stat_ok os_demo = (\<lambda>dir p. p = ''/usr/bin/env'' \<or> p = ''/bin/env'' \<or> p = ''/bin/ls'' \<or> p = ''/bin/echo'')"
    by (simp_all add: os_demo_def)
  have nopath: "environ os_nopath ''PATH'' = None"
    by (simp add: os_nopath_def)
  have a: "search_path ''env'' os_demo =
       (Some ''/usr/bin/env'',
        os_demo\<lparr>events := [Call_getenv ''PATH'', Call_stat ''/usr/bin/env'']\<rparr>)"
    using search_path_first_match [of "''env''" os_demo, THEN conjunct1]
    by (simp add: env path_dirs_demo)
  have b: "search_path ''ls'' os_demo =
       (Some ''/bin/ls'',
        os_demo\<lparr>events := [Call_getenv ''PATH'', Call_stat ''/usr/bin/ls'', Call_stat ''/bin/ls'']\<rparr>)"
    using search_path_first_match [of "''ls''" os_demo, THEN conjunct1]
    by (simp add: env path_dirs_demo)
  have c: "fst (search_path ''nope'' os_demo) = None"
    using search_path_first_match [of "''nope''" os_demo, THEN conjunct2, THEN conjunct2,
        THEN conjunct1, rule_format, OF env(1)]
    by (simp add: env path_dirs_demo)
  have d: "fst (search_path ''ls'' os_nopath) = None"
    using search_path_first_match [of "''ls''" os_nopath, THEN conjunct2, THEN conjunct1] nopath
    by simp
  show ?thesis
    by (intro conjI) (rule env(1), rule path_dirs_demo, rule a, rule b, rule c, rule nopath, rule d)
qed

section \<open>The word-count list keeps one entry for each word\<close>

lemma find_word_None_iff: "find_word ws w = None \<longleftrightarrow> w \<notin> set (map word ws)"
  by (induction ws) (auto simp: strcmp_zero_iff)

lemma find_word_Some:
  "find_word ws w = Some i \<Longrightarrow> i < length ws \<and> word (ws ! i) = w"
proof (induction ws arbitrary: i)
  case Nil
  then show ?case by simp
next
  case (Cons e es)
  show ?case
  proof (cases "strcmp (word e) w = 0")
    case True
    with Cons.prems show ?thesis by (simp add: strcmp_zero_iff)
  next
    case False
    with Cons.prems obtain j where j: "find_word es w = Some j" "i = Suc j"
      by auto
    with Cons.IH [of j] show ?thesis by simp
  qed
qed

lemma words_after_increment:
  assumes "i < length ws"
  shows "map word (ws[i := (ws ! i)\<lparr>count := c\<rparr>]) = map word ws"
  using assms by (simp add: map_update list_update_same_conv)

lemma add_word_words:
  "map word (wclist (snd (add_word malloc_ok st w))) =
     (if find_word (wclist st) w = None \<and> malloc_ok then map word (wclist st) @ [w]
      else map word (wclist st))"
proof (cases "find_word (wclist st) w")
  case None
  then show ?thesis by (simp add: add_word_def)
next
  case (Some i)
  with find_word_Some [OF Some] show ?thesis
    by (simp add: add_word_def words_after_increment)
qed

lemma add_word_distinct:
  assumes "distinct (map word (wclist st))"
  shows "distinct (map word (wclist (snd (add_word malloc_ok st w))))"
  using assms by (auto simp: add_word_words find_word_None_iff)

lemma add_words_distinct:
  "distinct (map word (wclist st)) \<Longrightarrow> distinct (map word (wclist (add_words calls st)))"
proof (induction calls arbitrary: st)
  case Nil
  then show ?case by simp
next
  case (Cons c calls)
  obtain malloc_ok w where c: "c = (malloc_ok, w)" by (cases c)
  from Cons.prems have "distinct (map word (wclist (snd (add_word malloc_ok st w))))"
    by (rule add_word_distinct)
  then show ?case
    unfolding c by (simp add: Cons.IH)
qed

text \<open>
  C10, as stated, fails where the allocation fails: \<open>find_word\<close> does not locate the word,
  and \<open>add_word\<close> appends nothing; it reports the error, returns a null pointer and leaves
  the list as it was.
\<close>

theorem add_word_malloc_failure_counterexample:
  "find_word init_words ''a'' = None
   \<and> add_word False \<lparr>wclist = init_words, wc_stderr = []\<rparr> ''a'' =
       (None, \<lparr>wclist = init_words, wc_stderr = ''malloc: Cannot allocate memory\<newline>''\<rparr>)
   \<and> wclist (snd (add_word False \<lparr>wclist = init_words, wc_stderr = []\<rparr> ''a''))
       \<noteq> init_words @ [\<lparr>word = ''a'', count = 1\<rparr>]"
  by (simp add: add_word_def init_words_def)

text \<open>
  C10, amended: every list built from \<open>init_words\<close> by a sequence of \<open>add_word\<close> calls,
  whatever the words and whatever the allocator answers, holds at most one entry for each
  word. \<open>find_word\<close> locates a word exactly when an entry holds it. When it does,
  \<open>add_word\<close> increments the count of that entry and changes nothing else. When it does
  not and the allocation succeeds, \<open>add_word\<close> appends one entry with count 1 at the back.
  When it does not and the allocation fails, \<open>add_word\<close> writes the \<open>malloc\<close> error to
  standard error, returns a null pointer and leaves the list unchanged.
\<close>

theorem add_word_keeps_words_distinct:
  "distinct (map word (wclist (add_words calls \<lparr>wclist = init_words, wc_stderr = err\<rparr>)))
   \<and> (find_word (wclist st) w = None \<longleftrightarrow> w \<notin> set (map word (wclist st)))
   \<and> (\<forall>i. find_word (wclist st) w = Some i \<longrightarrow>
         i < length (wclist st) \<and> word (wclist st ! i) = w
         \<and> add_word malloc_ok st w =
             (Some i,
              st\<lparr>wclist := (wclist st)[i := \<lparr>word = w, count = count (wclist st ! i) + 1\<rparr>]\<rparr>))
   \<and> (find_word (wclist st) w = None \<and> malloc_ok \<longrightarrow>
         add_word malloc_ok st w =
           (Some (length (wclist st)), st\<lparr>wclist := wclist st @ [\<lparr>word = w, count = 1\<rparr>]\<rparr>))
   \<and> (find_word (wclist st) w = None \<and> \<not> malloc_ok \<longrightarrow>
         add_word malloc_ok st w =
           (None, st\<lparr>wc_stderr := wc_stderr st @ ''malloc: Cannot allocate memory\<newline>''\<rparr>))"
proof (intro conjI allI impI)
  show "distinct (map word (wclist (add_words calls \<lparr>wclist = init_words, wc_stderr = err\<rparr>)))"
    by (rule add_words_distinct) (simp add: init_words_def)
next
  show "find_word (wclist st) w = None \<longleftrightarrow> w \<notin> set (map word (wclist st))"
    by (rule find_word_None_iff)
next
  fix i assume f: "find_word (wclist st) w = Some i"
  from find_word_Some [OF f] show "i < length (wclist st)" by simp
  from find_word_Some [OF f] show "word (wclist st ! i) = w" by simp
  from find_word_Some [OF f] have "(wclist st ! i)\<lparr>count := count (wclist st ! i) + 1\<rparr> =
      \<lparr>word = w, count = count (wclist st ! i) + 1\<rparr>"
    by (cases "wclist st ! i") auto
  with f show "add_word malloc_ok st w =
             (Some i,
              st\<lparr>wclist := (wclist st)[i := \<lparr>word = w, count = count (wclist st ! i) + 1\<rparr>]\<rparr>)"
    by (simp add: add_word_def)
next
  assume "find_word (wclist st) w = None \<and> malloc_ok"
  then show "add_word malloc_ok st w =
           (Some (length (wclist st)), st\<lparr>wclist := wclist st @ [\<lparr>word = w, count = 1\<rparr>]\<rparr>)"
    by (simp add: add_word_def)
next
  assume "find_word (wclist st) w = None \<and> \<not> malloc_ok"
  then show "add_word malloc_ok st w =
           (None, st\<lparr>wc_stderr := wc_stderr st @ ''malloc: Cannot allocate memory\<newline>''\<rparr>)"
    by (simp add: add_word_def)
qed

theorem add_word_keeps_words_distinct_witness:
  "find_word [\<lparr>word = ''a'', count = 1\<rparr>, \<lparr>word = ''b'', count = 1\<rparr>] ''b'' = Some 1
   \<and> add_word True \<lparr>wclist = [\<lparr>word = ''a'', count = 1\<rparr>, \<lparr>word = ''b'', count = 1\<rparr>], wc_stderr = []\<rparr> ''b'' =
       (Some 1, \<lparr>wclist = [\<lparr>word = ''a'', count = 1\<rparr>, \<lparr>word = ''b'', count = 2\<rparr>], wc_stderr = []\<rparr>)
   \<and> find_word [\<lparr>word = ''a'', count = 1\<rparr>] ''b'' = None
   \<and> add_word True \<lparr>wclist = [\<lparr>word = ''a'', count = 1\<rparr>], wc_stderr = []\<rparr> ''b'' =
       (Some 1, \<lparr>wclist = [\<lparr>word = ''a'', count = 1\<rparr>, \<lparr>word = ''b'', count = 1\<rparr>], wc_stderr = []\<rparr>)
   \<and> add_word False \<lparr>wclist = [\<lparr>word = ''a'', count = 1\<rparr>], wc_stderr = []\<rparr> ''b'' =
       (None, \<lparr>wclist = [\<lparr>word = ''a'', count = 1\<rparr>], wc_stderr = ''malloc: Cannot allocate memory\<newline>''\<rparr>)
   \<and> distinct (map word (wclist (add_words [(True, ''a''), (True, ''b''), (False, ''c''), (True, ''b'')]
         \<lparr>wclist = init_words, wc_stderr = []\<rparr>)))
   \<and> wclist (add_words [(True, ''a''), (True, ''b''), (False, ''c''), (True, ''b'')]
         \<lparr>wclist = init_words, wc_stderr = []\<rparr>) =
       [\<lparr>word = ''a'', count = 1\<rparr>, \<lparr>word = ''b'', count = 2\<rparr>]"
proof -
  let ?ab = "[\<lparr>word = ''a'', count = 1\<rparr>, \<lparr>word = ''b'', count = 1\<rparr>]"
  let ?a = "[\<lparr>word = ''a'', count = 1 :: 32 word\<rparr>]"
  have f1: "find_word ?ab ''b'' = Some 1" by simp
  have f2: "find_word ?a ''b'' = None" by simp
  note t1 = add_word_keeps_words_distinct [of _ _ "\<lparr>wclist = ?ab, wc_stderr = []\<rparr>" "''b''" True,
      THEN conjunct2, THEN conjunct2, THEN conjunct1, rule_format, of 1]
  note t2 = add_word_keeps_words_distinct [of _ _ "\<lparr>wclist = ?a, wc_stderr = []\<rparr>" "''b''" True,
      THEN conjunct2, THEN conjunct2, THEN conjunct2, THEN conjunct1, rule_format]
  note t3 = add_word_keeps_words_distinct [of _ _ "\<lparr>wclist = ?a, wc_stderr = []\<rparr>" "''b''" False,
      THEN conjunct2, THEN conjunct2, THEN conjunct2, THEN conjunct2, rule_format]
  note t4 = add_word_keeps_words_distinct [of
      "[(True, ''a''), (True, ''b''), (False, ''c''), (True, ''b'')]" "[]", THEN conjunct1]
  have a1: "add_word True \<lparr>wclist = ?ab, wc_stderr = []\<rparr> ''b'' =
       (Some 1, \<lparr>wclist = [\<lparr>word = ''a'', count = 1\<rparr>, \<lparr>word = ''b'', count = 2\<rparr>], wc_stderr = []\<rparr>)"
    using t1 f1 by simp
  have a2: "add_word True \<lparr>wclist = ?a, wc_stderr = []\<rparr> ''b'' =
       (Some 1, \<lparr>wclist = ?ab, wc_stderr = []\<rparr>)"
    using t2 f2 by simp
  have a3: "add_word False \<lparr>wclist = ?a, wc_stderr = []\<rparr> ''b'' =
       (None, \<lparr>wclist = ?a, wc_stderr = ''malloc: Cannot allocate memory\<newline>''\<rparr>)"
    using t3 f2 by simp
  have a4: "wclist (add_words [(True, ''a''), (True, ''b''), (False, ''c''), (True, ''b'')]
         \<lparr>wclist = init_words, wc_stderr = []\<rparr>) =
       [\<lparr>word = ''a'', count = 1\<rparr>, \<lparr>word = ''b'', count = 2\<rparr>]"
    by (simp add: add_word_def init_words_def)
  show ?thesis
    by (intro conjI) (rule f1, rule a1, rule f2, rule a2, rule a3, rule t4, rule a4)
qed

end
